theory Spec2Isabelle
  imports Main "HOL-Library.AList"
begin

section \<open>JavaScript values\<close>

text \<open>
  The fragment of JavaScript values that the store's own code inspects: primitives,
  arrays and plain objects (a property list in enumeration order). Numbers are
  restricted to integers. Functions are not values of this type: user callbacks are
  modelled separately (handler records, subscriber references).
\<close>

datatype jsval = JUndefined | JNull | JBool bool | JNum int | JStr string
  | JArr "jsval list" | JObj "(string \<times> jsval) list"

text \<open>\<^verbatim>\<open>!!v\<close>: JavaScript truthiness.\<close>

fun truthy :: "jsval \<Rightarrow> bool" where
  "truthy JUndefined = False"
| "truthy JNull = False"
| "truthy (JBool b) = b"
| "truthy (JNum n) = (n \<noteq> 0)"
| "truthy (JStr s) = (s \<noteq> [])"
| "truthy (JArr xs) = True"
| "truthy (JObj fs) = True"

text \<open>\<^verbatim>\<open>v[key]\<close> on a value: own properties of plain objects; \<^verbatim>\<open>undefined\<close> otherwise.\<close>

fun getProp :: "jsval \<Rightarrow> string \<Rightarrow> jsval" where
  "getProp (JObj fs) key = (case map_of fs key of None \<Rightarrow> JUndefined | Some v \<Rightarrow> v)"
| "getProp v key = JUndefined"

text \<open>
  Modelled from the spec: \<^verbatim>\<open>isObject\<close> of \<^verbatim>\<open>src/util.js\<close> is not among the source
  files. The spec's calling convention ``single object with \<^verbatim>\<open>type\<close>'' is taken as
  \<^verbatim>\<open>obj !== null && typeof obj === 'object'\<close>.
\<close>

fun isObject :: "jsval \<Rightarrow> bool" where
  "isObject (JObj fs) = True"
| "isObject (JArr xs) = True"
| "isObject v = False"

fun isString :: "jsval \<Rightarrow> bool" where
  "isString (JStr s) = True"
| "isString v = False"

text \<open>Decimal digits of a natural number, for the string conversion of numbers.\<close>

function string_of_nat :: "nat \<Rightarrow> string" where
  "string_of_nat n =
     (if n < 10 then [char_of (48 + n)]
      else string_of_nat (n div 10) @ [char_of (48 + n mod 10)])"
  by pat_completeness auto
termination
  by (relation "measure id") auto

fun joinComma :: "string list \<Rightarrow> string" where
  "joinComma [] = []"
| "joinComma [s] = s"
| "joinComma (s # t # ss) = s @ '','' @ joinComma (t # ss)"

text \<open>
  The string conversion JavaScript applies in a template literal and to a property key
  (\<^verbatim>\<open>registry[type]\<close>).
\<close>

fun jsToString :: "jsval \<Rightarrow> string" where
  "jsToString JUndefined = ''undefined''"
| "jsToString JNull = ''null''"
| "jsToString (JBool b) = (if b then ''true'' else ''false'')"
| "jsToString (JNum n) = (if n < 0 then ''-'' @ string_of_nat (nat (- n)) else string_of_nat (nat n))"
| "jsToString (JStr s) = s"
| "jsToString (JArr xs) =
     joinComma (map (\<lambda>x. if x = JUndefined \<or> x = JNull then [] else jsToString x) xs)"
| "jsToString (JObj fs) = ''[object Object]''"

section \<open>Errors and console output\<close>

text \<open>
  A thrown exception is the \<open>Inl\<close> of a result. \<open>TypeError\<close> is the engine's error for
  a property read or a call on \<^verbatim>\<open>undefined\<close> or \<^verbatim>\<open>null\<close>. \<open>AssertionError\<close> is the error
  thrown by \<^verbatim>\<open>assert\<close>; for a malformed handler it records the module path, the table
  and the entry, for the other assertions only the message (the formatted text of the
  handler message is not modelled). An \<open>Inl\<close> result says that the call threw; the
  partially updated objects a throw leaves behind are not described.
\<close>

datatype error = TypeError | AssertionError "string list" string string | AssertionFailed string

text \<open>
  What a run writes to the console and which user callbacks it calls, in order.
  Callbacks are identified by a reference (a natural number).
\<close>

datatype event =
    ConsoleError string
  | ConsoleWarn string
  | MutationHandlerCalled nat jsval bool
  | SubscriberCalled nat jsval jsval
  | ActionSubscriberCalled nat jsval jsval
  | ActionHandlerCalled nat jsval

section \<open>Module node (\<^verbatim>\<open>src/module/module.js\<close>)\<close>

text \<open>
  An entry of a \<^verbatim>\<open>getters\<close>, \<^verbatim>\<open>mutations\<close> or \<^verbatim>\<open>actions\<close> table: a function (with
  an opaque body of type \<open>'f\<close>), an object \<^verbatim>\<open>{handler, root}\<close>, or any other value.
\<close>

datatype 'f rawValue = Function 'f | HandlerObject "'f rawValue" jsval | Plain jsval

text \<open>The \<^verbatim>\<open>state\<close> field of a definition: a function (given by what it returns) or a value.\<close>

datatype rawState = StateFunction jsval | StateValue jsval

text \<open>
  A raw module definition. A table that is absent (or falsy) is \<open>None\<close>; a present
  table lists its own keys in enumeration order.
\<close>

datatype 'f RawModule = RawModule
  (raw_namespaced: jsval)
  (raw_state: rawState)
  (raw_getters: "(string \<times> 'f rawValue) list option")
  (raw_mutations: "(string \<times> 'f rawValue) list option")
  (raw_actions: "(string \<times> 'f rawValue) list option")
  (raw_modules: "(string \<times> 'f RawModule) list option")

text \<open>
  \<^verbatim>\<open>class Module\<close>: \<^verbatim>\<open>runtime\<close>, \<^verbatim>\<open>_children\<close> (a dictionary, in insertion order),
  \<^verbatim>\<open>_rawModule\<close> and \<^verbatim>\<open>state\<close>. A node owns a copy of its raw definition: the aliasing
  of \<^verbatim>\<open>_rawModule\<close> with the caller's object is not modelled.
\<close>

datatype 'f Module = Module
  (runtime: bool)
  (children: "(string \<times> 'f Module) list")
  (rawModule: "'f RawModule")
  (state: jsval)


definition namespaced :: "'f Module \<Rightarrow> bool" where
  "namespaced m = truthy (raw_namespaced (rawModule m))"

definition addChild :: "string \<Rightarrow> 'f Module \<Rightarrow> 'f Module \<Rightarrow> 'f Module" where
  "addChild key c m = Module (runtime m) (AList.update key c (children m)) (rawModule m) (state m)"

definition removeChild :: "string \<Rightarrow> 'f Module \<Rightarrow> 'f Module" where
  "removeChild key m = Module (runtime m) (AList.delete key (children m)) (rawModule m) (state m)"

definition getChild :: "string \<Rightarrow> 'f Module \<Rightarrow> 'f Module option" where
  "getChild key m = map_of (children m) key"

text \<open>
  \<^verbatim>\<open>Module.prototype.update\<close>: \<^verbatim>\<open>namespaced\<close> is always copied; each of \<^verbatim>\<open>actions\<close>,
  \<^verbatim>\<open>mutations\<close>, \<^verbatim>\<open>getters\<close> only when the new definition has it.
\<close>

definition Module_update :: "'f RawModule \<Rightarrow> 'f Module \<Rightarrow> 'f Module" where
  "Module_update new m =
     (let raw = rawModule m;
          acts = (if raw_actions new \<noteq> None then raw_actions new else raw_actions raw);
          muts = (if raw_mutations new \<noteq> None then raw_mutations new else raw_mutations raw);
          gets = (if raw_getters new \<noteq> None then raw_getters new else raw_getters raw)
      in Module (runtime m) (children m)
           (RawModule (raw_namespaced new) (raw_state raw) gets muts acts (raw_modules raw))
           (state m))"

section \<open>Module tree (\<^verbatim>\<open>src/module/module-collection.js\<close>)\<close>

text \<open>
  The collection is its \<^verbatim>\<open>root\<close> field, \<open>None\<close> while it is \<^verbatim>\<open>undefined\<close>. A lookup
  that comes back \<^verbatim>\<open>undefined\<close> is \<open>Inr None\<close>.

  \<^verbatim>\<open>get(path)\<close>: \<^verbatim>\<open>path.reduce((module, key) => module.getChild(key), this.root)\<close>.
\<close>

definition get_step :: "error + 'f Module option \<Rightarrow> string \<Rightarrow> error + 'f Module option" where
  "get_step acc key =
     (case acc of
        Inl e \<Rightarrow> Inl e
      | Inr None \<Rightarrow> Inl TypeError
      | Inr (Some m) \<Rightarrow> Inr (getChild key m))"

definition get :: "'f Module option \<Rightarrow> string list \<Rightarrow> error + 'f Module option" where
  "get root path = foldl get_step (Inr root) path"

text \<open>
  \<^verbatim>\<open>getNamespace(path)\<close>: the reduction carries the namespace built so far; the
  variable \<^verbatim>\<open>module\<close> of the enclosing scope is the other component of the accumulator.
\<close>

definition getNamespace_step ::
  "error + ('f Module option \<times> string) \<Rightarrow> string \<Rightarrow> error + ('f Module option \<times> string)" where
  "getNamespace_step acc key =
     (case acc of
        Inl e \<Rightarrow> Inl e
      | Inr (None, ns) \<Rightarrow> Inl TypeError
      | Inr (Some m, ns) \<Rightarrow>
          (case getChild key m of
             None \<Rightarrow> Inl TypeError
           | Some c \<Rightarrow> Inr (Some c, ns @ (if namespaced c then key @ ''/'' else []))))"

definition getNamespace :: "'f Module option \<Rightarrow> string list \<Rightarrow> error + string" where
  "getNamespace root path =
     (case foldl getNamespace_step (Inr (root, [])) path of
        Inl e \<Rightarrow> Inl e
      | Inr (m, ns) \<Rightarrow> Inr ns)"

text \<open>
  The namespace as the spec words it: for every position of the path, in root-to-leaf
  order, the key followed by \<^verbatim>\<open>/\<close> when the node that the path reaches there is
  namespaced.
\<close>

definition namespace_of_spec :: "'f Module option \<Rightarrow> string list \<Rightarrow> string" where
  "namespace_of_spec root path =
     concat (map (\<lambda>i. case get root (take (Suc i) path) of
                         Inr (Some m) \<Rightarrow> if namespaced m then path ! i @ ''/'' else []
                       | _ \<Rightarrow> [])
                 [0 ..< length path])"

text \<open>
  A method call on a node reached by \<^verbatim>\<open>get\<close> changes that node inside the tree:
  \<open>modify_at path f\<close> is the tree after \<open>f\<close> has run on the node at \<open>path\<close>.
\<close>

fun modify_at :: "string list \<Rightarrow> ('f Module \<Rightarrow> 'f Module) \<Rightarrow> 'f Module \<Rightarrow> 'f Module" where
  "modify_at [] f m = f m"
| "modify_at (k # ks) f m =
     (case getChild k m of
        None \<Rightarrow> m
      | Some c \<Rightarrow>
          Module (runtime m) (AList.update k (modify_at ks f c) (children m)) (rawModule m) (state m))"

text \<open>
  \<^verbatim>\<open>assertRawModule\<close>: getters and mutations must be functions, actions functions or
  objects with a \<^verbatim>\<open>handler\<close> function; the first offending entry throws.
  \<^verbatim>\<open>typeof null === 'object'\<close>, so a \<^verbatim>\<open>null\<close> action makes \<^verbatim>\<open>value.handler\<close> throw.

  Modelled from the spec: \<^verbatim>\<open>assert\<close> and \<^verbatim>\<open>forEachValue\<close> of \<^verbatim>\<open>src/util.js\<close> are not
  among the source files; a failed assertion aborts the call (a validation failure),
  and a table is visited in the order of its keys.
\<close>

fun functionAssert :: "'f rawValue \<Rightarrow> error + bool" where
  "functionAssert (Function f) = Inr True"
| "functionAssert v = Inr False"

fun objectAssert :: "'f rawValue \<Rightarrow> error + bool" where
  "objectAssert (Function f) = Inr True"
| "objectAssert (HandlerObject (Function f) r) = Inr True"
| "objectAssert (HandlerObject h r) = Inr False"
| "objectAssert (Plain JNull) = Inl TypeError"
| "objectAssert (Plain v) = Inr False"

fun assertTable ::
  "('f rawValue \<Rightarrow> error + bool) \<Rightarrow> string list \<Rightarrow> string \<Rightarrow> (string \<times> 'f rawValue) list
     \<Rightarrow> error + unit" where
  "assertTable check path key [] = Inr ()"
| "assertTable check path key ((type, v) # rest) =
     (case check v of
        Inl e \<Rightarrow> Inl e
      | Inr False \<Rightarrow> Inl (AssertionError path key type)
      | Inr True \<Rightarrow> assertTable check path key rest)"

definition assertField ::
  "('f rawValue \<Rightarrow> error + bool) \<Rightarrow> string list \<Rightarrow> string
     \<Rightarrow> (string \<times> 'f rawValue) list option \<Rightarrow> error + unit" where
  "assertField check path key table =
     (case table of None \<Rightarrow> Inr () | Some entries \<Rightarrow> assertTable check path key entries)"

definition assertRawModule :: "string list \<Rightarrow> 'f RawModule \<Rightarrow> error + unit" where
  "assertRawModule path rawM =
     (case assertField functionAssert path ''getters'' (raw_getters rawM) of
        Inl e \<Rightarrow> Inl e
      | Inr u \<Rightarrow>
     (case assertField functionAssert path ''mutations'' (raw_mutations rawM) of
        Inl e \<Rightarrow> Inl e
      | Inr u \<Rightarrow> assertField objectAssert path ''actions'' (raw_actions rawM)))"

text \<open>
  The assertions run only when \<^verbatim>\<open>process.env.NODE_ENV !== 'production'\<close>; the flag
  \<open>production\<close> is the build mode.
\<close>

definition checkRawModule :: "bool \<Rightarrow> string list \<Rightarrow> 'f RawModule \<Rightarrow> error + unit" where
  "checkRawModule production path rawM =
     (if production then Inr () else assertRawModule path rawM)"



text \<open>
  \<^verbatim>\<open>unregister(path)\<close>. For the empty path \<^verbatim>\<open>path[path.length - 1]\<close> is \<^verbatim>\<open>undefined\<close>,
  which as a dictionary key is the string \<^verbatim>\<open>undefined\<close>.
\<close>

definition unregister :: "string list \<Rightarrow> 'f Module option \<Rightarrow> error + 'f Module option" where
  "unregister path root =
     (case get root (butlast path) of
        Inl e \<Rightarrow> Inl e
      | Inr None \<Rightarrow> Inl TypeError
      | Inr (Some parent) \<Rightarrow>
          (let key = (if path = [] then ''undefined'' else last path) in
           case getChild key parent of
             None \<Rightarrow> Inl TypeError
           | Some child \<Rightarrow>
               if \<not> runtime child then Inr root
               else Inr (map_option (modify_at (butlast path) (removeChild key)) root)))"

text \<open>
  The recursive \<^verbatim>\<open>update(path, targetModule, newModule)\<close> of a hot update, with the
  \<^verbatim>\<open>for ... in\<close> loop over \<^verbatim>\<open>newModule.modules\<close> as \<open>update_modules\<close>. The \<^verbatim>\<open>return\<close>
  inside the loop ends the call for \<open>targetModule\<close>. The result is the updated node
  and the console output so far.
\<close>

definition hotReloadWarning :: "string \<Rightarrow> string" where
  "hotReloadWarning key =
     ''[vuex] trying to add a new module '' @ [CHR 0x27] @ key @ [CHR 0x27]
       @ '' on hot reloading, manual reload is needed''"

fun update ::
  "bool \<Rightarrow> string list \<Rightarrow> 'f Module \<Rightarrow> 'f RawModule \<Rightarrow> event list
     \<Rightarrow> error + ('f Module \<times> event list)"
and update_modules ::
  "bool \<Rightarrow> string list \<Rightarrow> 'f Module \<Rightarrow> (string \<times> 'f RawModule) list \<Rightarrow> event list
     \<Rightarrow> error + ('f Module \<times> event list)"
where
  "update production path targetModule (RawModule ns st gs ms as mods) out =
     (case checkRawModule production path (RawModule ns st gs ms as mods) of
        Inl e \<Rightarrow> Inl e
      | Inr u \<Rightarrow>
     (case mods of
        None \<Rightarrow> Inr (Module_update (RawModule ns st gs ms as mods) targetModule, out)
      | Some children_defs \<Rightarrow>
          update_modules production path
            (Module_update (RawModule ns st gs ms as mods) targetModule) children_defs out))"
| "update_modules production path targetModule [] out = Inr (targetModule, out)"
| "update_modules production path targetModule ((key, newChild) # rest) out =
     (case getChild key targetModule of
        None \<Rightarrow>
          Inr (targetModule,
               if production then out else out @ [ConsoleWarn (hotReloadWarning key)])
      | Some child \<Rightarrow>
          (case update production (path @ [key]) child newChild out of
             Inl e \<Rightarrow> Inl e
           | Inr (child1, out1) \<Rightarrow>
               update_modules production path (addChild key child1 targetModule) rest out1))"

text \<open>\<^verbatim>\<open>ModuleCollection.prototype.update\<close>: \<^verbatim>\<open>update([], this.root, rawRootModule)\<close>.\<close>

definition ModuleCollection_update ::
  "bool \<Rightarrow> 'f RawModule \<Rightarrow> 'f Module option \<Rightarrow> event list
     \<Rightarrow> error + ('f Module option \<times> event list)" where
  "ModuleCollection_update production rawRootModule root out =
     (case root of
        None \<Rightarrow> Inl TypeError
      | Some r \<Rightarrow>
          (case update production [] r rawRootModule out of
             Inl e \<Rightarrow> Inl e
           | Inr (r1, out1) \<Rightarrow> Inr (Some r1, out1)))"

section \<open>Store (\<^verbatim>\<open>src/store.js\<close>)\<close>

text \<open>
  A promise is kept as the expression that built it: \<^verbatim>\<open>Promise.resolve(v)\<close>, a promise
  \<open>p\<close> that a user handler returned, \<^verbatim>\<open>res.catch(err => { emit; throw err })\<close> of the
  devtool hook, and \<^verbatim>\<open>Promise.all([...])\<close>. What a handler returns is a plain value
  or a promise.

  Modelled from the spec: \<^verbatim>\<open>isPromise\<close> of \<^verbatim>\<open>src/util.js\<close> is not among the source
  files; ``coerced to an awaitable even if it returned a plain value'' is taken as: a
  \<open>ReturnedPromise\<close> is a promise, a \<open>Returned\<close> value is not.
\<close>

datatype 'p promise =
    PromiseResolve jsval
  | UserPromise 'p
  | DevtoolCatch "'p promise"
  | PromiseAll "'p promise list"

datatype 'p returned = Returned jsval | ReturnedPromise "'p promise"

text \<open>
  User callbacks. A callback carries a reference (its identity, compared by \<^verbatim>\<open>===\<close>).
  A registered mutation handler is given by what it does to the state tree, a
  registered action handler by what it returns; a subscriber is only its reference.
  Callbacks return normally and do not call back into the store while they run.
\<close>

record mutationHandler =
  mutation_ref :: nat
  mutation_run :: "jsval \<Rightarrow> jsval \<Rightarrow> jsval"

record 'p actionHandler =
  action_ref :: nat
  action_run :: "jsval \<Rightarrow> jsval \<Rightarrow> 'p returned"

text \<open>
  The fields of a \<^verbatim>\<open>Store\<close> that \<^verbatim>\<open>commit\<close>, \<^verbatim>\<open>dispatch\<close> and the subscriptions use:
  \<^verbatim>\<open>_committing\<close>, \<^verbatim>\<open>_actions\<close>, \<^verbatim>\<open>_actionSubscribers\<close>, \<^verbatim>\<open>_mutations\<close>,
  \<^verbatim>\<open>_subscribers\<close>, the state tree \<^verbatim>\<open>_vm._data.$$state\<close>, whether \<^verbatim>\<open>_devtoolHook\<close> is
  set, and the trace of console output and callback calls. The registries are
  dictionaries without prototype.
\<close>

record 'p Store =
  committing :: bool
  actions :: "(string \<times> 'p actionHandler list) list"
  actionSubscribers :: "nat list"
  mutations :: "(string \<times> mutationHandler list) list"
  subscribers :: "nat list"
  vm_state :: jsval
  devtoolHook :: bool
  trace :: "event list"

definition emit :: "event \<Rightarrow> 'p Store \<Rightarrow> 'p Store" where
  "emit e store = store\<lparr>trace := trace store @ [e]\<rparr>"

text \<open>\<^verbatim>\<open>typeof v\<close>.\<close>

fun jsTypeof :: "jsval \<Rightarrow> string" where
  "jsTypeof JUndefined = ''undefined''"
| "jsTypeof JNull = ''object''"
| "jsTypeof (JBool b) = ''boolean''"
| "jsTypeof (JNum n) = ''number''"
| "jsTypeof (JStr s) = ''string''"
| "jsTypeof (JArr xs) = ''object''"
| "jsTypeof (JObj fs) = ''object''"

text \<open>\<^verbatim>\<open>unifyObjectStyle(type, payload, options)\<close>; the result is \<^verbatim>\<open>{type, payload, options}\<close>.\<close>

definition unifyObjectStyle ::
  "bool \<Rightarrow> jsval \<Rightarrow> jsval \<Rightarrow> jsval \<Rightarrow> error + (jsval \<times> jsval \<times> jsval)" where
  "unifyObjectStyle production type payload options =
     (let (type1, payload1, options1) =
            (if isObject type \<and> truthy (getProp type ''type'')
             then (getProp type ''type'', type, payload)
             else (type, payload, options))
      in if \<not> production \<and> \<not> isString type1
         then Inl (AssertionFailed
                (''expects string as the type, but found '' @ jsTypeof type1 @ ''.''))
         else Inr (type1, payload1, options1))"

text \<open>\<^verbatim>\<open>_withCommit(fn)\<close>.\<close>

definition withCommit :: "('p Store \<Rightarrow> 'p Store) \<Rightarrow> 'p Store \<Rightarrow> 'p Store" where
  "withCommit fn store =
     (let was = committing store;
          store1 = fn (store\<lparr>committing := True\<rparr>)
      in store1\<lparr>committing := was\<rparr>)"

text \<open>
  A call of a registered mutation handler: the trace records the handler, the payload
  and the write-guard flag at the time of the call.
\<close>

definition callMutation :: "jsval \<Rightarrow> 'p Store \<Rightarrow> mutationHandler \<Rightarrow> 'p Store" where
  "callMutation payload store handler =
     emit (MutationHandlerCalled (mutation_ref handler) payload (committing store))
       (store\<lparr>vm_state := mutation_run handler payload (vm_state store)\<rparr>)"

definition notifySubscriber :: "jsval \<Rightarrow> 'p Store \<Rightarrow> nat \<Rightarrow> 'p Store" where
  "notifySubscriber mutation store sub = emit (SubscriberCalled sub mutation (vm_state store)) store"

definition silentWarning :: "jsval \<Rightarrow> string" where
  "silentWarning type =
     ''[vuex] mutation type: '' @ jsToString type @ ''. Silent option has been removed. ''
       @ ''Use the filter functionality in the vue-devtools''"

text \<open>\<^verbatim>\<open>commit(_type, _payload, _options)\<close>.\<close>

definition commit :: "bool \<Rightarrow> jsval \<Rightarrow> jsval \<Rightarrow> jsval \<Rightarrow> 'p Store \<Rightarrow> error + 'p Store" where
  "commit production type0 payload0 options0 store =
     (case unifyObjectStyle production type0 payload0 options0 of
        Inl e \<Rightarrow> Inl e
      | Inr (type, payload, options) \<Rightarrow>
          (let mutation = JObj [(''type'', type), (''payload'', payload)] in
           case map_of (mutations store) (jsToString type) of
             None \<Rightarrow>
               Inr (if production then store
                    else emit (ConsoleError (''[vuex] unknown mutation type: '' @ jsToString type))
                           store)
           | Some entry \<Rightarrow>
               (let store1 = withCommit (\<lambda>s. foldl (callMutation payload) s entry) store;
                    store2 = foldl (notifySubscriber mutation) store1 (subscribers store1)
                in Inr (if \<not> production \<and> truthy options \<and> truthy (getProp options ''silent'')
                        then emit (ConsoleWarn (silentWarning type)) store2
                        else store2))))"

text \<open>
  \<^verbatim>\<open>registerAction\<close> appends to the entry of the type, creating it when absent; the
  function it pushes is \<open>wrappedActionHandler\<close>: it calls the handler, turns a plain
  result into \<^verbatim>\<open>Promise.resolve(res)\<close> and, with a devtool hook, returns
  \<^verbatim>\<open>res.catch(...)\<close>.
\<close>

definition registerAction :: "string \<Rightarrow> 'p actionHandler \<Rightarrow> 'p Store \<Rightarrow> 'p Store" where
  "registerAction type handler store =
     (let entry = (case map_of (actions store) type of None \<Rightarrow> [] | Some hs \<Rightarrow> hs)
      in store\<lparr>actions := AList.update type (entry @ [handler]) (actions store)\<rparr>)"

definition registerMutation :: "string \<Rightarrow> mutationHandler \<Rightarrow> 'p Store \<Rightarrow> 'p Store" where
  "registerMutation type handler store =
     (let entry = (case map_of (mutations store) type of None \<Rightarrow> [] | Some hs \<Rightarrow> hs)
      in store\<lparr>mutations := AList.update type (entry @ [handler]) (mutations store)\<rparr>)"

definition wrappedActionHandler ::
  "jsval \<Rightarrow> 'p Store \<Rightarrow> 'p actionHandler \<Rightarrow> 'p Store \<times> 'p promise" where
  "wrappedActionHandler payload store handler =
     (let res = action_run handler payload (vm_state store);
          res1 = (case res of Returned v \<Rightarrow> PromiseResolve v | ReturnedPromise p \<Rightarrow> p)
      in (emit (ActionHandlerCalled (action_ref handler) payload) store,
          if devtoolHook store then DevtoolCatch res1 else res1))"

text \<open>\<^verbatim>\<open>entry.map(handler => handler(payload))\<close>: the handlers run in order.\<close>

fun callActions ::
  "jsval \<Rightarrow> 'p Store \<Rightarrow> 'p actionHandler list \<Rightarrow> 'p Store \<times> 'p promise list" where
  "callActions payload store [] = (store, [])"
| "callActions payload store (h # hs) =
     (let (store1, p) = wrappedActionHandler payload store h;
          (store2, ps) = callActions payload store1 hs
      in (store2, p # ps))"

definition notifyActionSubscriber :: "jsval \<Rightarrow> 'p Store \<Rightarrow> nat \<Rightarrow> 'p Store" where
  "notifyActionSubscriber action store sub =
     emit (ActionSubscriberCalled sub action (vm_state store)) store"

text \<open>
  \<^verbatim>\<open>dispatch(_type, _payload)\<close>: the store afterwards and the value returned. An entry
  is never empty when it was built by \<open>registerAction\<close>; on an empty one
  \<^verbatim>\<open>entry[0](payload)\<close> calls \<^verbatim>\<open>undefined\<close>.
\<close>

definition dispatch ::
  "bool \<Rightarrow> jsval \<Rightarrow> jsval \<Rightarrow> 'p Store \<Rightarrow> error + ('p Store \<times> 'p returned)" where
  "dispatch production type0 payload0 store =
     (case unifyObjectStyle production type0 payload0 JUndefined of
        Inl e \<Rightarrow> Inl e
      | Inr (type, payload, options) \<Rightarrow>
          (let action = JObj [(''type'', type), (''payload'', payload)] in
           case map_of (actions store) (jsToString type) of
             None \<Rightarrow>
               Inr (if production then store
                    else emit (ConsoleError (''[vuex] unknown action type: '' @ jsToString type))
                           store,
                    Returned JUndefined)
           | Some entry \<Rightarrow>
               (let store1 = foldl (notifyActionSubscriber action) store (actionSubscribers store)
                in if length entry > 1
                   then (let (store2, ps) = callActions payload store1 entry
                         in Inr (store2, ReturnedPromise (PromiseAll ps)))
                   else (case entry of
                           [] \<Rightarrow> Inl TypeError
                         | h # hs \<Rightarrow>
                             (let (store2, p) = wrappedActionHandler payload store1 h
                              in Inr (store2, ReturnedPromise p))))))"

text \<open>
  \<^verbatim>\<open>genericSubscribe(fn, subs)\<close>. \<open>indexOf\<close> is \<^verbatim>\<open>Array.prototype.indexOf\<close>
  (\<open>- 1\<close> when absent), \<open>splice1 i\<close> is \<^verbatim>\<open>subs.splice(i, 1)\<close>. The array is shared
  with the returned closure, so the closure \<open>unsubscribe fn\<close> acts on the list as it
  is when it is called.
\<close>

fun indexOf :: "'a \<Rightarrow> 'a list \<Rightarrow> int" where
  "indexOf x [] = - 1"
| "indexOf x (y # ys) =
     (if x = y then 0 else (let i = indexOf x ys in if i < 0 then - 1 else i + 1))"

definition splice1 :: "int \<Rightarrow> 'a list \<Rightarrow> 'a list" where
  "splice1 i xs = take (nat i) xs @ drop (nat i + 1) xs"

definition genericSubscribe :: "'a \<Rightarrow> 'a list \<Rightarrow> 'a list" where
  "genericSubscribe fn subs = (if indexOf fn subs < 0 then subs @ [fn] else subs)"

definition unsubscribe :: "'a \<Rightarrow> 'a list \<Rightarrow> 'a list" where
  "unsubscribe fn subs = (let i = indexOf fn subs in if i > - 1 then splice1 i subs else subs)"

text \<open>\<^verbatim>\<open>subscribe(fn)\<close> and \<^verbatim>\<open>subscribeAction(fn)\<close>: the store and the closure returned.\<close>

definition subscribe :: "nat \<Rightarrow> 'p Store \<Rightarrow> 'p Store \<times> ('p Store \<Rightarrow> 'p Store)" where
  "subscribe fn store =
     (store\<lparr>subscribers := genericSubscribe fn (subscribers store)\<rparr>,
      \<lambda>s. s\<lparr>subscribers := unsubscribe fn (subscribers s)\<rparr>)"

definition subscribeAction :: "nat \<Rightarrow> 'p Store \<Rightarrow> 'p Store \<times> ('p Store \<Rightarrow> 'p Store)" where
  "subscribeAction fn store =
     (store\<lparr>actionSubscribers := genericSubscribe fn (actionSubscribers store)\<rparr>,
      \<lambda>s. s\<lparr>actionSubscribers := unsubscribe fn (actionSubscribers s)\<rparr>)"

section \<open>Settling of promises\<close>

text \<open>
  When and how a promise settles, given that for the promises of user handlers:
  \<open>None\<close> when it never settles, otherwise the logical time and the value or reason.
  \<^verbatim>\<open>Promise.resolve\<close> of a plain value is fulfilled from the start; the devtool
  \<^verbatim>\<open>catch\<close> rethrows, so it settles as its argument does; \<^verbatim>\<open>Promise.all\<close> rejects with
  the earliest rejection (the first in the list among equal times) and otherwise
  fulfils, with the list of values, once all its members have.
\<close>

datatype settlement = Fulfilled jsval | Rejected jsval

fun first_rejection :: "(nat \<times> settlement) option list \<Rightarrow> (nat \<times> jsval) option" where
  "first_rejection [] = None"
| "first_rejection (Some (t, Rejected e) # os) =
     (case first_rejection os of
        None \<Rightarrow> Some (t, e)
      | Some (t1, e1) \<Rightarrow> if t1 < t then Some (t1, e1) else Some (t, e))"
| "first_rejection (other # os) = first_rejection os"

fun all_fulfilled :: "(nat \<times> settlement) option list \<Rightarrow> (nat \<times> jsval list) option" where
  "all_fulfilled [] = Some (0, [])"
| "all_fulfilled (Some (t, Fulfilled v) # os) =
     (case all_fulfilled os of
        None \<Rightarrow> None
      | Some (t1, vs) \<Rightarrow> Some (max t t1, v # vs))"
| "all_fulfilled (other # os) = None"

definition settle_all :: "(nat \<times> settlement) option list \<Rightarrow> (nat \<times> settlement) option" where
  "settle_all os =
     (case first_rejection os of
        Some (t, e) \<Rightarrow> Some (t, Rejected e)
      | None \<Rightarrow>
          (case all_fulfilled os of
             Some (t, vs) \<Rightarrow> Some (t, Fulfilled (JArr vs))
           | None \<Rightarrow> None))"

fun settle :: "('p \<Rightarrow> (nat \<times> settlement) option) \<Rightarrow> 'p promise \<Rightarrow> (nat \<times> settlement) option" where
  "settle user (PromiseResolve v) = Some (0, Fulfilled v)"
| "settle user (UserPromise p) = user p"
| "settle user (DevtoolCatch q) = settle user q"
| "settle user (PromiseAll qs) = settle_all (map (settle user) qs)"

section \<open>Installation (\<^verbatim>\<open>install\<close> of \<^verbatim>\<open>src/store.js\<close>)\<close>

text \<open>
  The module-level variable \<^verbatim>\<open>Vue\<close> (\<open>None\<close> while unbound) with the console output.

  Modelled from the spec: \<^verbatim>\<open>applyMixin\<close> of \<^verbatim>\<open>src/mixin.js\<close> is not among the source
  files; it is the hook into the host framework, and its calls are only recorded, in
  \<open>mixinApplied\<close>.
\<close>

record 'v Global =
  Vue :: "'v option"
  mixinApplied :: "'v list"
  console :: "event list"

definition alreadyInstalled :: string where
  "alreadyInstalled = ''[vuex] already installed. Vue.use(Vuex) should be called only once.''"

definition install :: "bool \<Rightarrow> 'v \<Rightarrow> 'v Global \<Rightarrow> 'v Global" where
  "install production v g =
     (if Vue g \<noteq> None \<and> Some v = Vue g
      then (if production then g else g\<lparr>console := console g @ [ConsoleError alreadyInstalled]\<rparr>)
      else g\<lparr>Vue := Some v, mixinApplied := mixinApplied g @ [v]\<rparr>)"

section \<open>Specification-level notions for the module tree\<close>





text \<open>The namespace by recursion down the path, from the node the path starts at.\<close>

fun namespace_rec :: "'f Module \<Rightarrow> string list \<Rightarrow> string" where
  "namespace_rec m [] = []"
| "namespace_rec m (k # ks) =
     (case getChild k m of
        None \<Rightarrow> []
      | Some c \<Rightarrow> (if namespaced c then k @ ''/'' else []) @ namespace_rec c ks)"

section \<open>Example inputs\<close>

definition example_raw :: "jsval \<Rightarrow> (string \<times> nat RawModule) list option \<Rightarrow> nat RawModule" where
  "example_raw ns mods = RawModule ns (StateValue JUndefined) None None None mods"

definition example_node :: "bool \<Rightarrow> jsval \<Rightarrow> (string \<times> nat Module) list \<Rightarrow> nat Module" where
  "example_node rt ns cs = Module rt cs (example_raw ns None) (JObj [])"

text \<open>
  A root with the children \<^verbatim>\<open>a\<close> (registered at run time, namespaced; below it \<^verbatim>\<open>b\<close>,
  not namespaced, and below that \<^verbatim>\<open>c\<close>, namespaced) and \<^verbatim>\<open>d\<close> (from construction).
\<close>

definition example_tree :: "nat Module" where
  "example_tree =
     example_node False JUndefined
       [(''a'', example_node True (JBool True)
                  [(''b'', example_node True JUndefined
                             [(''c'', example_node True (JBool True) [])])]),
        (''d'', example_node False JUndefined [])]"




text \<open>No provider is bound yet.\<close>

definition initial_global :: "nat Global" where
  "initial_global = \<lparr>Vue = None, mixinApplied = [], console = []\<rparr>"

text \<open>
  A store with two handlers for the mutation \<^verbatim>\<open>inc\<close> (each adds \<^verbatim>\<open>payload.amount\<close> to a
  numeric state), one handler for the action \<^verbatim>\<open>load\<close> (it returns a plain value), two
  for the action \<^verbatim>\<open>sync\<close> (they return the promises 0 and 2), the mutation
  subscribers 5 and 6 and the action subscribers 7 and 8.
\<close>

definition add_amount :: "nat \<Rightarrow> mutationHandler" where
  "add_amount r =
     \<lparr>mutation_ref = r,
      mutation_run = (\<lambda>payload st.
         case (getProp payload ''amount'', st) of
           (JNum a, JNum n) \<Rightarrow> JNum (n + a)
         | other \<Rightarrow> st)\<rparr>"

definition returning :: "nat \<Rightarrow> nat returned \<Rightarrow> nat actionHandler" where
  "returning r res = \<lparr>action_ref = r, action_run = (\<lambda>payload st. res)\<rparr>"

definition example_store :: "nat Store" where
  "example_store =
     \<lparr>committing = False,
      actions = [(''load'', [returning 11 (Returned (JStr ''done''))]),
                 (''sync'', [returning 12 (ReturnedPromise (UserPromise 0)),
                             returning 13 (ReturnedPromise (UserPromise 2))])],
      actionSubscribers = [7, 8],
      mutations = [(''inc'', [add_amount 1, add_amount 2])],
      subscribers = [5, 6],
      vm_state = JNum 0,
      devtoolHook = False,
      trace = []\<rparr>"

text \<open>The promise 0 is fulfilled at time 3, the promise 2 is rejected at time 5.\<close>

definition example_outcomes :: "nat \<Rightarrow> (nat \<times> settlement) option" where
  "example_outcomes p =
     (if p = 0 then Some (3, Fulfilled (JNum 1))
      else if p = 2 then Some (5, Rejected (JStr ''boom''))
      else None)"

text \<open>An object-style first argument: \<^verbatim>\<open>{type: 'inc', amount: 5}\<close>.\<close>

definition example_object :: jsval where
  "example_object = JObj [(''type'', JStr ''inc''), (''amount'', JNum 5)]"

section \<open>Module node: update\<close>


text \<open>
  Claim C9. \<^verbatim>\<open>Module.prototype.update\<close> overwrites, on the node's raw definition, the
  \<^verbatim>\<open>namespaced\<close> field (so the node's namespaced flag is the truthiness of the new
  one) and each of the tables \<^verbatim>\<open>actions\<close>, \<^verbatim>\<open>mutations\<close>, \<^verbatim>\<open>getters\<close> that the new
  definition has; a table the new definition lacks keeps its old value; the raw
  \<^verbatim>\<open>state\<close> and \<^verbatim>\<open>modules\<close> fields, the node's state slice, its children and its
  runtime flag are as before.
\<close>

theorem Module_update_overwrites_handlers_only:
  "raw_namespaced (rawModule (Module_update new m)) = raw_namespaced new
   \<and> namespaced (Module_update new m) = truthy (raw_namespaced new)
   \<and> raw_actions (rawModule (Module_update new m))
       = (case raw_actions new of None \<Rightarrow> raw_actions (rawModule m) | Some t \<Rightarrow> Some t)
   \<and> raw_mutations (rawModule (Module_update new m))
       = (case raw_mutations new of None \<Rightarrow> raw_mutations (rawModule m) | Some t \<Rightarrow> Some t)
   \<and> raw_getters (rawModule (Module_update new m))
       = (case raw_getters new of None \<Rightarrow> raw_getters (rawModule m) | Some t \<Rightarrow> Some t)
   \<and> raw_state (rawModule (Module_update new m)) = raw_state (rawModule m)
   \<and> raw_modules (rawModule (Module_update new m)) = raw_modules (rawModule m)
   \<and> state (Module_update new m) = state m
   \<and> children (Module_update new m) = children m
   \<and> runtime (Module_update new m) = runtime m"
  by (simp add: Module_update_def namespaced_def Let_def split: option.split)

section \<open>Module tree: lookup\<close>

lemma get_Nil: "get root [] = Inr root"
  by (simp add: get_def)

lemma foldl_get_step_Inl: "foldl get_step (Inl e) ks = Inl e"
  by (induction ks) (simp_all add: get_step_def)

lemma get_Cons:
  "get root (k # ks) =
     (case root of None \<Rightarrow> Inl TypeError | Some m \<Rightarrow> get (getChild k m) ks)"
  by (cases root) (simp_all add: get_def get_step_def foldl_get_step_Inl)


lemma get_resolves_child:
  "get (Some m) (k # ks) = Inr (Some n) \<Longrightarrow> \<exists>c. getChild k m = Some c \<and> get (Some c) ks = Inr (Some n)"
  by (cases "getChild k m"; cases ks) (simp_all add: get_Cons get_Nil)

lemma getChild_addChild:
  "getChild k (addChild key c m) = (if k = key then Some c else getChild k m)"
  by (simp add: getChild_def addChild_def update_conv')



section \<open>Module tree: namespaces\<close>

lemma foldl_getNamespace_step_Inl: "foldl getNamespace_step (Inl e) ks = Inl e"
  by (induction ks) (simp_all add: getNamespace_step_def)

lemma getNamespace_fold:
  "get (Some m) ks = Inr (Some m') \<Longrightarrow>
   foldl getNamespace_step (Inr (Some m, ns)) ks = Inr (Some m', ns @ namespace_rec m ks)"
proof (induction ks arbitrary: m ns)
  case Nil
  then show ?case by (simp add: get_Nil)
next
  case (Cons k ks)
  show ?case
  proof (cases "getChild k m")
    case None
    with Cons.prems show ?thesis
      by (cases ks) (simp_all add: get_Cons get_Nil)
  next
    case (Some c)
    with Cons.prems have "get (Some c) ks = Inr (Some m')" by (simp add: get_Cons)
    from Cons.IH[OF this] Some show ?thesis
      by (simp add: getNamespace_step_def)
  qed
qed

lemma namespace_of_spec_Cons:
  "getChild k m = Some c \<Longrightarrow>
   namespace_of_spec (Some m) (k # ks) =
     (if namespaced c then k @ ''/'' else []) @ namespace_of_spec (Some c) ks"
  by (simp add: namespace_of_spec_def map_upt_Suc get_Cons get_Nil del: upt_Suc cong: sum.case_cong option.case_cong if_cong)

lemma namespace_of_spec_rec:
  "get (Some m) ks = Inr (Some m') \<Longrightarrow> namespace_of_spec (Some m) ks = namespace_rec m ks"
proof (induction ks arbitrary: m)
  case Nil
  then show ?case by (simp add: namespace_of_spec_def)
next
  case (Cons k ks)
  show ?case
  proof (cases "getChild k m")
    case None
    with Cons.prems show ?thesis
      by (cases ks) (simp_all add: get_Cons get_Nil)
  next
    case (Some c)
    with Cons.prems have "get (Some c) ks = Inr (Some m')" by (simp add: get_Cons)
    from Cons.IH[OF this] Some show ?thesis
      by (simp add: namespace_of_spec_Cons)
  qed
qed

text \<open>
  Claim C6. For a path that resolves to a node, \<^verbatim>\<open>getNamespace(path)\<close> returns the
  concatenation, in root-to-leaf order, of \<^verbatim>\<open>key + '/'\<close> for every key of the path whose
  node is namespaced; when none of the nodes along the path is namespaced, it returns
  the empty string.
\<close>

theorem getNamespace_concatenates_namespaced_keys:
  assumes "get root path = Inr (Some m)"
  shows "getNamespace root path = Inr (namespace_of_spec root path)
         \<and> ((\<forall>i < length path. \<forall>n. get root (take (Suc i) path) = Inr (Some n) \<longrightarrow> \<not> namespaced n)
              \<longrightarrow> getNamespace root path = Inr [])"
proof -
  have main: "getNamespace root path = Inr (namespace_of_spec root path)"
  proof (cases root)
    case None
    with assms show ?thesis by (cases path) (simp_all add: get_Nil get_Cons)
  next
    case (Some r)
    with assms have g: "get (Some r) path = Inr (Some m)" by simp
    show ?thesis
      using getNamespace_fold[OF g, of "[]"] namespace_of_spec_rec[OF g] Some
      by (simp add: getNamespace_def)
  qed
  have "namespace_of_spec root path = []"
    if "\<forall>i < length path. \<forall>n. get root (take (Suc i) path) = Inr (Some n) \<longrightarrow> \<not> namespaced n"
    using that by (auto simp: namespace_of_spec_def split: sum.splits option.splits)
  with main show ?thesis by simp
qed

theorem getNamespace_concatenates_namespaced_keys_witness:
  "get (Some example_tree) [''a'', ''b'', ''c'']
     = Inr (Some (example_node True (JBool True) []))
   \<and> getNamespace (Some example_tree) [''a'', ''b'', ''c''] = Inr ''a/c/''
   \<and> get (Some example_tree) [''d''] = Inr (Some (example_node False JUndefined []))
   \<and> getNamespace (Some example_tree) [''d''] = Inr []"
proof -
  have d: "get (Some example_tree) [''d''] = Inr (Some (example_node False JUndefined []))"
    by (simp add: get_Cons get_Nil getChild_def example_tree_def example_node_def)
  have none: "\<forall>i < length [''d'']. \<forall>n. get (Some example_tree) (take (Suc i) [''d'']) = Inr (Some n)
                \<longrightarrow> \<not> namespaced n"
    by (simp add: d) (simp add: example_node_def example_raw_def namespaced_def)
  from getNamespace_concatenates_namespaced_keys[OF d] none
  have e: "getNamespace (Some example_tree) [''d''] = Inr []" by blast
  have g: "get (Some example_tree) [''a'', ''b'', ''c'']
             = Inr (Some (example_node True (JBool True) []))"
    by (simp add: get_Cons get_Nil getChild_def example_tree_def example_node_def)
  have "namespace_of_spec (Some example_tree) [''a'', ''b'', ''c''] = ''a/c/''"
    by (simp add: namespace_of_spec_rec[OF g])
       (simp add: getChild_def example_tree_def example_node_def example_raw_def namespaced_def)
  with g getNamespace_concatenates_namespaced_keys[OF g] d e show ?thesis by simp
qed

section \<open>Module tree: register and unregister\<close>




lemma modify_at_cong:
  "get (Some t) p = Inr (Some n) \<Longrightarrow> f n = g n \<Longrightarrow> modify_at p f t = modify_at p g t"
proof (induction p arbitrary: t)
  case Nil
  then show ?case by (simp add: get_Nil)
next
  case (Cons k ks)
  from get_resolves_child[OF Cons.prems(1)] obtain c
    where c: "getChild k t = Some c" "get (Some c) ks = Inr (Some n)" by blast
  from Cons.IH[OF c(2) Cons.prems(2)] c(1) show ?case by simp
qed





















text \<open>
  The root has no parent: \<^verbatim>\<open>unregister([])\<close> looks for a child under the key
  \<^verbatim>\<open>undefined\<close> and, there being none, throws.
\<close>

lemma unregister_root:
  "getChild ''undefined'' r = None \<Longrightarrow> unregister [] (Some r) = Inl TypeError"
  by (simp add: unregister_def get_Nil)

section \<open>Module tree: hot update\<close>


lemma update_modules_other_children:
  "update_modules production path t ms out = Inr (t', out') \<Longrightarrow> k \<notin> fst ` set ms \<Longrightarrow>
   getChild k t' = getChild k t"
proof (induction ms arbitrary: t out)
  case Nil
  then show ?case by simp
next
  case (Cons a ms)
  obtain key newChild where a: "a = (key, newChild)" by (cases a)
  show ?case
  proof (cases "getChild key t")
    case None
    with Cons.prems a show ?thesis by auto
  next
    case (Some child)
    with Cons.prems a obtain child1 out1
      where rest: "update_modules production path (addChild key child1 t) ms out1 = Inr (t', out')"
      by (auto split: sum.splits)
    from Cons.IH[OF rest] Cons.prems(2) a show ?thesis by (simp add: getChild_addChild)
  qed
qed









section \<open>Installation\<close>

text \<open>
  Claim C5, as amended. After any call \<^verbatim>\<open>install(v)\<close> the bound provider is \<open>v\<close>. When
  \<open>v\<close> is the provider already bound, the call changes nothing but the console: a
  non-production build reports the diagnostic, a production build does nothing. In
  every other case (nothing bound yet, or a different provider bound) the call binds
  \<open>v\<close> and applies the mixin to it.
\<close>

theorem install_binds_the_given_provider:
  "Vue (install production v g) = Some v
   \<and> (Vue g = Some v \<longrightarrow>
        install production v g
          = (if production then g else g\<lparr>console := console g @ [ConsoleError alreadyInstalled]\<rparr>))
   \<and> (Vue g \<noteq> Some v \<longrightarrow>
        install production v g = g\<lparr>Vue := Some v, mixinApplied := mixinApplied g @ [v]\<rparr>)"
  by (auto simp: install_def)

text \<open>
  The claim C5 as stated fails: after a first install with provider 1, an install with
  the distinct provider 2 is neither rejected nor a no-op; it rebinds the global to 2,
  applies the mixin again and reports nothing.
\<close>

theorem install_rebinds_distinct_provider:
  "Vue (install False 1 initial_global) = Some 1
   \<and> Vue (install False 2 (install False 1 initial_global)) = Some 2
   \<and> mixinApplied (install False 2 (install False 1 initial_global)) = [1, 2]
   \<and> console (install False 2 (install False 1 initial_global)) = []"
  by (simp add: install_def initial_global_def)

theorem install_binds_the_given_provider_witness:
  "Vue (install False 1 initial_global) = Some 1
   \<and> install False 1 (install False 1 initial_global)
       = \<lparr>Vue = Some 1, mixinApplied = [1], console = [ConsoleError alreadyInstalled]\<rparr>
   \<and> install True 1 (install False 1 initial_global) = install False 1 initial_global
   \<and> install False 2 (install False 1 initial_global)
       = \<lparr>Vue = Some 2, mixinApplied = [1, 2], console = []\<rparr>"
proof -
  have a: "Vue (install False 1 initial_global) = Some (1::nat)"
    and b: "Vue (install False 1 initial_global) \<noteq> Some (2::nat)"
    by (simp_all add: install_def initial_global_def)
  from install_binds_the_given_provider[of False 1 "install False 1 initial_global"]
       install_binds_the_given_provider[of True 1 "install False 1 initial_global"]
       install_binds_the_given_provider[of False 2 "install False 1 initial_global"] a b
  show ?thesis by (simp add: install_def initial_global_def)
qed

section \<open>Subscriptions\<close>

lemma indexOf_ge: "- 1 \<le> indexOf x xs"
  by (induction xs) (auto simp: Let_def)

lemma indexOf_neg_iff: "indexOf x xs < 0 \<longleftrightarrow> x \<notin> set xs"
  using indexOf_ge[of x] by (induction xs) (auto simp: Let_def)

lemma splice1_Suc: "0 \<le> i \<Longrightarrow> splice1 (i + 1) (y # ys) = y # splice1 i ys"
  by (simp add: splice1_def nat_add_distrib)

lemma splice1_indexOf: "x \<in> set xs \<Longrightarrow> splice1 (indexOf x xs) xs = remove1 x xs"
proof (induction xs)
  case Nil
  then show ?case by simp
next
  case (Cons y ys)
  show ?case
  proof (cases "x = y")
    case True
    then show ?thesis by (simp add: splice1_def)
  next
    case False
    with Cons.prems have mem: "x \<in> set ys" by simp
    then have "0 \<le> indexOf x ys" using indexOf_neg_iff[of x ys] by simp
    with False mem Cons.IH show ?thesis
      by (simp add: Let_def splice1_Suc)
  qed
qed

lemma unsubscribe_remove1: "unsubscribe fn subs = remove1 fn subs"
proof (cases "fn \<in> set subs")
  case True
  then have "0 \<le> indexOf fn subs" using indexOf_neg_iff[of fn subs] by simp
  with True show ?thesis by (simp add: unsubscribe_def Let_def splice1_indexOf)
next
  case False
  then have "indexOf fn subs < 0" by (simp add: indexOf_neg_iff)
  with False show ?thesis by (simp add: unsubscribe_def Let_def remove1_idem)
qed

lemma genericSubscribe_cases:
  "genericSubscribe fn subs = (if fn \<in> set subs then subs else subs @ [fn])"
  by (simp add: genericSubscribe_def indexOf_neg_iff)

text \<open>
  Claim C8. Subscribing a reference that is already in the list leaves the list as it
  is, a new reference is appended, and subscribing twice is subscribing once. The
  closure returned removes the first occurrence of the reference and nothing else; it
  changes nothing when the reference is not in the list. Subscriber lists have no
  duplicates (they start empty, and subscribing and unsubscribing keep this); on such a
  list unsubscribing removes exactly that reference, and a second call changes nothing.
  \<^verbatim>\<open>subscribe\<close> does this on the mutation subscribers, \<^verbatim>\<open>subscribeAction\<close> on the action
  subscribers, each leaving the other list alone.
\<close>

theorem subscribe_once_unsubscribe_that_reference:
  "(fn \<in> set subs \<longrightarrow> genericSubscribe fn subs = subs)
   \<and> (fn \<notin> set subs \<longrightarrow> genericSubscribe fn subs = subs @ [fn])
   \<and> genericSubscribe fn (genericSubscribe fn subs) = genericSubscribe fn subs
   \<and> unsubscribe fn subs = remove1 fn subs
   \<and> (fn \<notin> set subs \<longrightarrow> unsubscribe fn subs = subs)
   \<and> (distinct subs \<longrightarrow>
        distinct (genericSubscribe fn subs) \<and> distinct (unsubscribe fn subs)
        \<and> unsubscribe fn subs = filter (\<lambda>g. g \<noteq> fn) subs
        \<and> unsubscribe fn (unsubscribe fn subs) = unsubscribe fn subs
        \<and> unsubscribe fn (genericSubscribe fn subs) = filter (\<lambda>g. g \<noteq> fn) subs)
   \<and> subscribers (fst (subscribe fn store)) = genericSubscribe fn (subscribers store)
   \<and> actionSubscribers (fst (subscribe fn store)) = actionSubscribers store
   \<and> subscribers (snd (subscribe fn store) later) = unsubscribe fn (subscribers later)
   \<and> actionSubscribers (snd (subscribe fn store) later) = actionSubscribers later
   \<and> actionSubscribers (fst (subscribeAction fn store))
       = genericSubscribe fn (actionSubscribers store)
   \<and> subscribers (fst (subscribeAction fn store)) = subscribers store
   \<and> actionSubscribers (snd (subscribeAction fn store) later)
       = unsubscribe fn (actionSubscribers later)
   \<and> subscribers (snd (subscribeAction fn store) later) = subscribers later"
proof -
  have nf: "fn \<notin> set xs \<Longrightarrow> filter (\<lambda>g. g \<noteq> fn) xs = xs" for xs
    by (induction xs) auto
  have d: "distinct xs \<Longrightarrow> remove1 fn xs = filter (\<lambda>g. g \<noteq> fn) xs" for xs
    by (induction xs) (auto simp: nf)
  have "distinct subs \<longrightarrow>
        distinct (genericSubscribe fn subs) \<and> distinct (unsubscribe fn subs)
        \<and> unsubscribe fn subs = filter (\<lambda>g. g \<noteq> fn) subs
        \<and> unsubscribe fn (unsubscribe fn subs) = unsubscribe fn subs
        \<and> unsubscribe fn (genericSubscribe fn subs) = filter (\<lambda>g. g \<noteq> fn) subs"
    by (auto simp: unsubscribe_remove1 genericSubscribe_cases d nf remove1_idem)
  then show ?thesis
    by (simp add: genericSubscribe_cases unsubscribe_remove1 remove1_idem subscribe_def
          subscribeAction_def)
qed

theorem subscribe_once_unsubscribe_that_reference_witness:
  "subscribers (fst (subscribe 6 example_store)) = [5, 6]
   \<and> subscribers (fst (subscribe 9 example_store)) = [5, 6, 9]
   \<and> subscribers (snd (subscribe 6 example_store) example_store) = [5]
   \<and> subscribers (snd (subscribe 6 example_store) (snd (subscribe 6 example_store) example_store)) = [5]
   \<and> subscribers (snd (subscribe 9 example_store) example_store) = [5, 6]
   \<and> actionSubscribers (fst (subscribeAction 7 example_store)) = [7, 8]
   \<and> actionSubscribers (snd (subscribeAction 7 example_store) example_store) = [8]"
proof -
  have subs: "subscribers example_store = [5, 6]" "actionSubscribers example_store = [7, 8]"
    by (simp_all add: example_store_def)
  have d: "distinct [5, 6 :: nat]" "(6::nat) \<in> set [5, 6]" "(9::nat) \<notin> set [5, 6]"
    "(7::nat) \<in> set [7, 8]" "(6::nat) \<notin> set [5]"
    by simp_all
  note t6 = subscribe_once_unsubscribe_that_reference[of 6 "[5, 6]" example_store example_store]
  note t6' = subscribe_once_unsubscribe_that_reference[of 6 "[5]" example_store
               "snd (subscribe 6 example_store) example_store"]
  note t9 = subscribe_once_unsubscribe_that_reference[of 9 "[5, 6]" example_store example_store]
  note t7 = subscribe_once_unsubscribe_that_reference[of 7 "[7, 8]" example_store example_store]
  from t6 d have a: "subscribers (fst (subscribe 6 example_store)) = [5, 6]"
    by (simp add: subs)
  from t9 d have b: "subscribers (fst (subscribe 9 example_store)) = [5, 6, 9]"
    by (simp add: subs)
  from t6 d have c: "subscribers (snd (subscribe 6 example_store) example_store) = [5]"
    by (simp add: subs)
  from t6' d have e: "subscribers (snd (subscribe 6 example_store)
                        (snd (subscribe 6 example_store) example_store)) = [5]"
    by (simp add: subs c)
  from t9 d have f: "subscribers (snd (subscribe 9 example_store) example_store) = [5, 6]"
    by (simp add: subs)
  from t7 d have g: "actionSubscribers (fst (subscribeAction 7 example_store)) = [7, 8]"
    "actionSubscribers (snd (subscribeAction 7 example_store) example_store) = [8]"
    by (simp_all add: subs)
  from a b c e f g show ?thesis by blast
qed

section \<open>Store: commit\<close>

lemma foldl_callMutation:
  "foldl (callMutation payload) s entry =
     s\<lparr>vm_state := foldl (\<lambda>st h. mutation_run h payload st) (vm_state s) entry,
       trace := trace s
         @ map (\<lambda>h. MutationHandlerCalled (mutation_ref h) payload (committing s)) entry\<rparr>"
proof (induction entry arbitrary: s)
  case Nil
  show ?case by simp
next
  case (Cons h hs)
  show ?case by (simp add: Cons.IH) (simp add: callMutation_def emit_def)
qed

lemma foldl_notifySubscriber:
  "foldl (notifySubscriber mutation) s subs =
     s\<lparr>trace := trace s @ map (\<lambda>sub. SubscriberCalled sub mutation (vm_state s)) subs\<rparr>"
proof (induction subs arbitrary: s)
  case Nil
  show ?case by simp
next
  case (Cons x xs)
  show ?case by (simp add: Cons.IH) (simp add: notifySubscriber_def emit_def)
qed

lemma withCommit_handlers:
  "withCommit (\<lambda>s. foldl (callMutation payload) s entry) store =
     store\<lparr>vm_state := foldl (\<lambda>st h. mutation_run h payload st) (vm_state store) entry,
            trace := trace store
              @ map (\<lambda>h. MutationHandlerCalled (mutation_ref h) payload True) entry\<rparr>"
  by (simp add: withCommit_def Let_def foldl_callMutation)

lemma commit_normalized:
  assumes "unifyObjectStyle production type0 payload0 options0 = Inr (type, payload, options)"
  shows "commit production type0 payload0 options0 store =
     Inr (case map_of (mutations store) (jsToString type) of
            None \<Rightarrow>
              store\<lparr>trace := trace store
                @ (if production then []
                   else [ConsoleError (''[vuex] unknown mutation type: '' @ jsToString type)])\<rparr>
          | Some entry \<Rightarrow>
              store\<lparr>vm_state := foldl (\<lambda>st h. mutation_run h payload st) (vm_state store) entry,
                trace := trace store
                  @ map (\<lambda>h. MutationHandlerCalled (mutation_ref h) payload True) entry
                  @ map (\<lambda>sub. SubscriberCalled sub (JObj [(''type'', type), (''payload'', payload)])
                            (foldl (\<lambda>st h. mutation_run h payload st) (vm_state store) entry))
                      (subscribers store)
                  @ (if \<not> production \<and> truthy options \<and> truthy (getProp options ''silent'')
                     then [ConsoleWarn (silentWarning type)] else [])\<rparr>)"
  using assms
  by (simp add: commit_def Let_def withCommit_handlers foldl_notifySubscriber emit_def
        split: option.split)




section \<open>Store: dispatch\<close>

lemma foldl_notifyActionSubscriber:
  "foldl (notifyActionSubscriber action) s subs =
     s\<lparr>trace := trace s @ map (\<lambda>sub. ActionSubscriberCalled sub action (vm_state s)) subs\<rparr>"
proof (induction subs arbitrary: s)
  case Nil
  show ?case by simp
next
  case (Cons x xs)
  show ?case by (simp add: Cons.IH) (simp add: notifyActionSubscriber_def emit_def)
qed

lemma wrappedActionHandler_eq:
  "wrappedActionHandler payload s h =
     (s\<lparr>trace := trace s @ [ActionHandlerCalled (action_ref h) payload]\<rparr>,
      snd (wrappedActionHandler payload s h))"
  by (simp add: wrappedActionHandler_def Let_def emit_def)

lemma wrappedActionHandler_trace_irrelevant:
  "snd (wrappedActionHandler payload (s\<lparr>trace := tr\<rparr>) h) = snd (wrappedActionHandler payload s h)"
  by (simp add: wrappedActionHandler_def Let_def)

lemma callActions_eq:
  "callActions payload s entry =
     (s\<lparr>trace := trace s @ map (\<lambda>h. ActionHandlerCalled (action_ref h) payload) entry\<rparr>,
      map (\<lambda>h. snd (wrappedActionHandler payload s h)) entry)"
proof (induction entry arbitrary: s)
  case Nil
  show ?case by simp
next
  case (Cons h hs)
  show ?case
    by (subst callActions.simps, subst wrappedActionHandler_eq)
       (simp add: Cons.IH wrappedActionHandler_trace_irrelevant)
qed

lemma dispatch_normalized:
  assumes "unifyObjectStyle production type0 payload0 JUndefined = Inr (type, payload, options)"
  shows "dispatch production type0 payload0 store =
     (case map_of (actions store) (jsToString type) of
        None \<Rightarrow>
          Inr (store\<lparr>trace := trace store
                 @ (if production then []
                    else [ConsoleError (''[vuex] unknown action type: '' @ jsToString type)])\<rparr>,
               Returned JUndefined)
      | Some entry \<Rightarrow>
          (if entry = [] then Inl TypeError
           else Inr (store\<lparr>trace := trace store
                       @ map (\<lambda>sub. ActionSubscriberCalled sub
                                 (JObj [(''type'', type), (''payload'', payload)]) (vm_state store))
                           (actionSubscribers store)
                       @ map (\<lambda>h. ActionHandlerCalled (action_ref h) payload) entry\<rparr>,
                     ReturnedPromise
                       (if length entry > 1
                        then PromiseAll (map (\<lambda>h. snd (wrappedActionHandler payload store h)) entry)
                        else snd (wrappedActionHandler payload store (hd entry))))))"
proof (cases "map_of (actions store) (jsToString type)")
  case None
  with assms show ?thesis by (simp add: dispatch_def emit_def)
next
  case (Some entry)
  show ?thesis
  proof (cases entry)
    case Nil
    with assms Some show ?thesis by (simp add: dispatch_def Let_def)
  next
    case (Cons h hs)
    show ?thesis
    proof (cases hs)
      case Nil
      with assms Some Cons show ?thesis
        by (simp add: dispatch_def Let_def foldl_notifyActionSubscriber)
           (subst wrappedActionHandler_eq, simp add: wrappedActionHandler_trace_irrelevant)
    next
      case (Cons h2 hs2)
      with assms Some \<open>entry = h # hs\<close> show ?thesis
        by (simp add: dispatch_def Let_def foldl_notifyActionSubscriber callActions_eq
              wrappedActionHandler_trace_irrelevant)
    qed
  qed
qed




section \<open>Promises\<close>

lemma all_fulfilled_members:
  "all_fulfilled os = Some (t, vs) \<Longrightarrow>
   first_rejection os = None
   \<and> (\<forall>x \<in> set os. \<exists>t' v'. x = Some (t', Fulfilled v') \<and> t' \<le> t)"
proof (induction os arbitrary: t vs)
  case Nil
  then show ?case by simp
next
  case (Cons x os)
  show ?case
  proof (cases x)
    case None
    with Cons.prems show ?thesis by simp
  next
    case (Some a)
    obtain t0 s where a: "a = (t0, s)" by (cases a)
    show ?thesis
    proof (cases s)
      case (Rejected e)
      with Cons.prems Some a show ?thesis by simp
    next
      case (Fulfilled v)
      with Cons.prems Some a obtain t1 vs1 where r: "all_fulfilled os = Some (t1, vs1)"
        and t: "t = max t0 t1"
        by (auto split: option.splits)
      from Cons.IH[OF r] t Some a Fulfilled show ?thesis by (auto simp: max_def)
    qed
  qed
qed

lemma first_rejection_earliest:
  "Some (t', Rejected e) \<in> set os \<Longrightarrow> \<exists>t e'. first_rejection os = Some (t, e') \<and> t \<le> t'"
proof (induction os)
  case Nil
  then show ?case by simp
next
  case (Cons x os)
  show ?case
  proof (cases x)
    case None
    with Cons show ?thesis by auto
  next
    case (Some a)
    obtain t0 s where a: "a = (t0, s)" by (cases a)
    show ?thesis
    proof (cases s)
      case (Fulfilled v)
      with Cons Some a show ?thesis by auto
    next
      case (Rejected e0)
      show ?thesis
      proof (cases "Some (t', Rejected e) \<in> set os")
        case True
        from Cons.IH[OF this] obtain t e' where "first_rejection os = Some (t, e')" "t \<le> t'"
          by blast
        with Some a Rejected show ?thesis by auto
      next
        case False
        with Cons.prems Some a Rejected have "t0 = t'" by auto
        with Some a Rejected show ?thesis by (auto split: option.splits)
      qed
    qed
  qed
qed

lemma first_rejection_member:
  "first_rejection os = Some (t, e) \<Longrightarrow> Some (t, Rejected e) \<in> set os"
proof (induction os arbitrary: t e)
  case Nil
  then show ?case by simp
next
  case (Cons x os)
  show ?case
  proof (cases x)
    case None
    with Cons show ?thesis by auto
  next
    case (Some a)
    obtain t0 s where a: "a = (t0, s)" by (cases a)
    show ?thesis
    proof (cases s)
      case (Fulfilled v)
      with Cons Some a show ?thesis by auto
    next
      case (Rejected e0)
      with Cons Some a show ?thesis by (auto split: option.splits if_splits)
    qed
  qed
qed

lemma settle_all_fulfilled:
  assumes "settle user (PromiseAll ps) = Some (t, Fulfilled v)"
  shows "\<forall>p \<in> set ps. \<exists>t' v'. settle user p = Some (t', Fulfilled v') \<and> t' \<le> t"
proof -
  from assms obtain vs where "all_fulfilled (map (settle user) ps) = Some (t, vs)"
    by (auto simp: settle_all_def split: option.splits)
  from all_fulfilled_members[OF this] show ?thesis by auto
qed

lemma settle_all_rejects_early:
  assumes "p \<in> set ps" and "settle user p = Some (t', Rejected e)"
  shows "\<exists>t e'. settle user (PromiseAll ps) = Some (t, Rejected e') \<and> t \<le> t'
            \<and> (\<exists>q \<in> set ps. settle user q = Some (t, Rejected e'))"
proof -
  from assms have "Some (t', Rejected e) \<in> set (map (settle user) ps)" by force
  from first_rejection_earliest[OF this] obtain t e'
    where f: "first_rejection (map (settle user) ps) = Some (t, e')" and le: "t \<le> t'" by blast
  from first_rejection_member[OF f] have "\<exists>q \<in> set ps. settle user q = Some (t, Rejected e')"
    by auto
  with f le show ?thesis by (simp add: settle_all_def)
qed

text \<open>
  Claim C2. For a dispatch on a type with registered handlers: with exactly one handler
  the result is the promise that the wrapped handler returns, not an aggregate; with
  two or more, all handlers are called and the result is \<^verbatim>\<open>Promise.all\<close> of their
  promises. The wrapped handler turns a plain return value into a resolved promise (so
  the result is a promise in every case, fulfilled with that value). An aggregate that
  is fulfilled at some time has every member fulfilled by that time; and as soon as a
  member is rejected the aggregate is rejected, no later than that member and with the
  reason of a member rejected at that time.
\<close>

theorem dispatch_result_single_or_aggregate:
  fixes store :: "'p Store"
  assumes norm: "unifyObjectStyle production type0 payload0 JUndefined = Inr (type, payload, options)"
    and reg: "map_of (actions store) (jsToString type) = Some entry"
  shows
   "(\<forall>h. entry = [h] \<longrightarrow>
       (\<exists>store'. dispatch production type0 payload0 store
          = Inr (store', ReturnedPromise (snd (wrappedActionHandler payload store h)))))
    \<and> (2 \<le> length entry \<longrightarrow>
       (\<exists>store'. dispatch production type0 payload0 store
          = Inr (store', ReturnedPromise
                   (PromiseAll (map (\<lambda>h. snd (wrappedActionHandler payload store h)) entry)))
          \<and> trace store' = trace store
               @ map (\<lambda>sub. ActionSubscriberCalled sub
                         (JObj [(''type'', type), (''payload'', payload)]) (vm_state store))
                   (actionSubscribers store)
               @ map (\<lambda>h. ActionHandlerCalled (action_ref h) payload) entry))
    \<and> (\<forall>h. snd (wrappedActionHandler payload store h)
          = (let p = (case action_run h payload (vm_state store) of
                        Returned v \<Rightarrow> PromiseResolve v
                      | ReturnedPromise q \<Rightarrow> q)
             in if devtoolHook store then DevtoolCatch p else p))
    \<and> (\<forall>h v. action_run h payload (vm_state store) = Returned v \<longrightarrow>
          settle user (snd (wrappedActionHandler payload store h)) = Some (0, Fulfilled v))
    \<and> (\<forall>ps t v. settle user (PromiseAll ps) = Some (t, Fulfilled v) \<longrightarrow>
          (\<forall>p \<in> set ps. \<exists>t' v'. settle user p = Some (t', Fulfilled v') \<and> t' \<le> t))
    \<and> (\<forall>ps p t' e. p \<in> set ps \<and> settle user p = Some (t', Rejected e) \<longrightarrow>
          (\<exists>t e'. settle user (PromiseAll ps) = Some (t, Rejected e') \<and> t \<le> t'
              \<and> (\<exists>q \<in> set ps. settle user q = Some (t, Rejected e'))))"
proof (intro conjI allI impI)
  fix h :: "'p actionHandler" assume "entry = [h]"
  with reg show "\<exists>store'. dispatch production type0 payload0 store
          = Inr (store', ReturnedPromise (snd (wrappedActionHandler payload store h)))"
    by (simp add: dispatch_normalized[OF norm])
next
  assume "2 \<le> length entry"
  then have "entry \<noteq> []" "length entry > 1" by auto
  with reg show "\<exists>store'. dispatch production type0 payload0 store
          = Inr (store', ReturnedPromise
                   (PromiseAll (map (\<lambda>h. snd (wrappedActionHandler payload store h)) entry)))
          \<and> trace store' = trace store
               @ map (\<lambda>sub. ActionSubscriberCalled sub
                         (JObj [(''type'', type), (''payload'', payload)]) (vm_state store))
                   (actionSubscribers store)
               @ map (\<lambda>h. ActionHandlerCalled (action_ref h) payload) entry"
    by (simp add: dispatch_normalized[OF norm])
next
  fix h
  show "snd (wrappedActionHandler payload store h)
          = (let p = (case action_run h payload (vm_state store) of
                        Returned v \<Rightarrow> PromiseResolve v
                      | ReturnedPromise q \<Rightarrow> q)
             in if devtoolHook store then DevtoolCatch p else p)"
    by (simp add: wrappedActionHandler_def Let_def)
next
  fix h :: "'p actionHandler" and v assume "action_run h payload (vm_state store) = Returned v"
  then show "settle user (snd (wrappedActionHandler payload store h)) = Some (0, Fulfilled v)"
    by (simp add: wrappedActionHandler_def Let_def)
next
  fix ps t v assume "settle user (PromiseAll ps) = Some (t, Fulfilled v)"
  from settle_all_fulfilled[OF this]
  show "\<forall>p \<in> set ps. \<exists>t' v'. settle user p = Some (t', Fulfilled v') \<and> t' \<le> t" .
next
  fix ps p t' e assume "p \<in> set ps \<and> settle user p = Some (t', Rejected e)"
  then show "\<exists>t e'. settle user (PromiseAll ps) = Some (t, Rejected e') \<and> t \<le> t'
              \<and> (\<exists>q \<in> set ps. settle user q = Some (t, Rejected e'))"
    using settle_all_rejects_early by blast
qed

theorem dispatch_result_single_or_aggregate_witness:
  "(\<exists>store'. dispatch False (JStr ''load'') JUndefined example_store
      = Inr (store', ReturnedPromise (PromiseResolve (JStr ''done''))))
   \<and> settle example_outcomes (PromiseResolve (JStr ''done'')) = Some (0, Fulfilled (JStr ''done''))
   \<and> (\<exists>store'. dispatch False (JStr ''sync'') JUndefined example_store
      = Inr (store', ReturnedPromise (PromiseAll [UserPromise 0, UserPromise 2])))
   \<and> settle example_outcomes (PromiseAll [UserPromise 0, UserPromise 2])
       = Some (5, Rejected (JStr ''boom''))
   \<and> settle example_outcomes (PromiseAll [UserPromise 0, PromiseResolve JNull])
       = Some (3, Fulfilled (JArr [JNum 1, JNull]))"
proof -
  have n1: "unifyObjectStyle False (JStr ''load'') JUndefined JUndefined
              = Inr (JStr ''load'', JUndefined, JUndefined)"
    by (simp add: unifyObjectStyle_def)
  have n2: "unifyObjectStyle False (JStr ''sync'') JUndefined JUndefined
              = Inr (JStr ''sync'', JUndefined, JUndefined)"
    by (simp add: unifyObjectStyle_def)
  have l1: "map_of (actions example_store) (jsToString (JStr ''load''))
              = Some [returning 11 (Returned (JStr ''done''))]"
    by (simp add: example_store_def)
  have l2: "map_of (actions example_store) (jsToString (JStr ''sync''))
              = Some [returning 12 (ReturnedPromise (UserPromise 0)),
                      returning 13 (ReturnedPromise (UserPromise 2))]"
    by (simp add: example_store_def)
  have w: "snd (wrappedActionHandler JUndefined example_store (returning 11 (Returned (JStr ''done''))))
             = PromiseResolve (JStr ''done'')"
     "snd (wrappedActionHandler JUndefined example_store (returning 12 (ReturnedPromise (UserPromise 0))))
             = UserPromise 0"
     "snd (wrappedActionHandler JUndefined example_store (returning 13 (ReturnedPromise (UserPromise 2))))
             = UserPromise 2"
    by (simp_all add: wrappedActionHandler_def returning_def example_store_def)
  have s: "settle example_outcomes (PromiseResolve (JStr ''done'')) = Some (0, Fulfilled (JStr ''done''))"
    "settle example_outcomes (PromiseAll [UserPromise 0, UserPromise 2])
       = Some (5, Rejected (JStr ''boom''))"
    "settle example_outcomes (PromiseAll [UserPromise 0, PromiseResolve JNull])
       = Some (3, Fulfilled (JArr [JNum 1, JNull]))"
    by (simp_all add: example_outcomes_def settle_all_def)
  from dispatch_result_single_or_aggregate[OF n1 l1, of example_outcomes]
  have a: "\<exists>store'. dispatch False (JStr ''load'') JUndefined example_store
      = Inr (store', ReturnedPromise (snd (wrappedActionHandler JUndefined example_store
               (returning 11 (Returned (JStr ''done''))))))"
    by blast
  from dispatch_result_single_or_aggregate[OF n2 l2, of example_outcomes]
  have b: "\<exists>store'. dispatch False (JStr ''sync'') JUndefined example_store
      = Inr (store', ReturnedPromise (PromiseAll (map
               (\<lambda>h. snd (wrappedActionHandler JUndefined example_store h))
               [returning 12 (ReturnedPromise (UserPromise 0)),
                returning 13 (ReturnedPromise (UserPromise 2))])))"
    by auto
  from a have a': "\<exists>store'. dispatch False (JStr ''load'') JUndefined example_store
      = Inr (store', ReturnedPromise (PromiseResolve (JStr ''done'')))"
    by (simp only: w)
  from b have b': "\<exists>store'. dispatch False (JStr ''sync'') JUndefined example_store
      = Inr (store', ReturnedPromise (PromiseAll [UserPromise 0, UserPromise 2]))"
    by (simp only: list.map w)
  from a' b' s show ?thesis by blast
qed

section \<open>Object-style calls\<close>

lemma unifyObjectStyle_object:
  assumes "isObject t" and "truthy (getProp t ''type'')"
  shows "unifyObjectStyle production t p opts
      = (if \<not> production \<and> \<not> isString (getProp t ''type'')
         then Inl (AssertionFailed
                (''expects string as the type, but found '' @ jsTypeof (getProp t ''type'') @ ''.''))
         else Inr (getProp t ''type'', t, p))"
  using assms by (simp add: unifyObjectStyle_def)

lemma unifyObjectStyle_string:
  "unifyObjectStyle production (JStr s) p opts = Inr (JStr s, p, opts)"
  by (simp add: unifyObjectStyle_def)

text \<open>
  Claim C10. When the first argument of \<^verbatim>\<open>commit\<close> or \<^verbatim>\<open>dispatch\<close> is an object with a
  truthy \<^verbatim>\<open>type\<close> property, normalization takes that property as the type, the whole
  object as the payload and the second argument as the options (a non-production build
  then rejects a type that is not a string). The handlers and the subscribers receive
  the whole object as the payload, \<^verbatim>\<open>commit\<close> reads \<^verbatim>\<open>silent\<close> from the second argument,
  and for a string type the call is the positional call with that type, the object as
  payload and, for \<^verbatim>\<open>commit\<close>, the second argument as options.
\<close>

theorem object_style_call_passes_whole_object:
  fixes store :: "'p Store"
  assumes obj: "isObject t" and ty: "truthy (getProp t ''type'')"
  shows
   "unifyObjectStyle production t p opts
      = (if \<not> production \<and> \<not> isString (getProp t ''type'')
         then Inl (AssertionFailed
                (''expects string as the type, but found '' @ jsTypeof (getProp t ''type'') @ ''.''))
         else Inr (getProp t ''type'', t, p))
    \<and> (production \<or> isString (getProp t ''type'') \<longrightarrow>
        (\<forall>entry. map_of (mutations store) (jsToString (getProp t ''type'')) = Some entry \<longrightarrow>
           commit production t p opts store
             = Inr (store\<lparr>vm_state := foldl (\<lambda>st h. mutation_run h t st) (vm_state store) entry,
                      trace := trace store
                        @ map (\<lambda>h. MutationHandlerCalled (mutation_ref h) t True) entry
                        @ map (\<lambda>sub. SubscriberCalled sub
                                  (JObj [(''type'', getProp t ''type''), (''payload'', t)])
                                  (foldl (\<lambda>st h. mutation_run h t st) (vm_state store) entry))
                            (subscribers store)
                        @ (if \<not> production \<and> truthy p \<and> truthy (getProp p ''silent'')
                           then [ConsoleWarn (silentWarning (getProp t ''type''))] else [])\<rparr>))
        \<and> (\<forall>entry. map_of (actions store) (jsToString (getProp t ''type'')) = Some entry
                    \<and> entry \<noteq> [] \<longrightarrow>
           dispatch production t p store
             = Inr (store\<lparr>trace := trace store
                      @ map (\<lambda>sub. ActionSubscriberCalled sub
                                (JObj [(''type'', getProp t ''type''), (''payload'', t)])
                                (vm_state store))
                          (actionSubscribers store)
                      @ map (\<lambda>h. ActionHandlerCalled (action_ref h) t) entry\<rparr>,
                    ReturnedPromise
                      (if length entry > 1
                       then PromiseAll (map (\<lambda>h. snd (wrappedActionHandler t store h)) entry)
                       else snd (wrappedActionHandler t store (hd entry))))))
    \<and> (\<forall>s. getProp t ''type'' = JStr s \<longrightarrow>
          commit production t p opts store = commit production (JStr s) t p store
          \<and> dispatch production t p store = dispatch production (JStr s) t store)"
proof (intro conjI allI impI)
  show "unifyObjectStyle production t p opts
      = (if \<not> production \<and> \<not> isString (getProp t ''type'')
         then Inl (AssertionFailed
                (''expects string as the type, but found '' @ jsTypeof (getProp t ''type'') @ ''.''))
         else Inr (getProp t ''type'', t, p))"
    by (rule unifyObjectStyle_object[OF obj ty])
next
  fix entry
  assume ok: "production \<or> isString (getProp t ''type'')"
    and reg: "map_of (mutations store) (jsToString (getProp t ''type'')) = Some entry"
  from ok have n: "unifyObjectStyle production t p opts = Inr (getProp t ''type'', t, p)"
    by (auto simp: unifyObjectStyle_object[OF obj ty])
  from reg show "commit production t p opts store
             = Inr (store\<lparr>vm_state := foldl (\<lambda>st h. mutation_run h t st) (vm_state store) entry,
                      trace := trace store
                        @ map (\<lambda>h. MutationHandlerCalled (mutation_ref h) t True) entry
                        @ map (\<lambda>sub. SubscriberCalled sub
                                  (JObj [(''type'', getProp t ''type''), (''payload'', t)])
                                  (foldl (\<lambda>st h. mutation_run h t st) (vm_state store) entry))
                            (subscribers store)
                        @ (if \<not> production \<and> truthy p \<and> truthy (getProp p ''silent'')
                           then [ConsoleWarn (silentWarning (getProp t ''type''))] else [])\<rparr>)"
    by (simp add: commit_normalized[OF n])
next
  fix entry :: "'p actionHandler list"
  assume ok: "production \<or> isString (getProp t ''type'')"
    and reg: "map_of (actions store) (jsToString (getProp t ''type'')) = Some entry \<and> entry \<noteq> []"
  from ok have n: "unifyObjectStyle production t p JUndefined = Inr (getProp t ''type'', t, p)"
    by (auto simp: unifyObjectStyle_object[OF obj ty])
  from reg show "dispatch production t p store
             = Inr (store\<lparr>trace := trace store
                      @ map (\<lambda>sub. ActionSubscriberCalled sub
                                (JObj [(''type'', getProp t ''type''), (''payload'', t)])
                                (vm_state store))
                          (actionSubscribers store)
                      @ map (\<lambda>h. ActionHandlerCalled (action_ref h) t) entry\<rparr>,
                    ReturnedPromise
                      (if length entry > 1
                       then PromiseAll (map (\<lambda>h. snd (wrappedActionHandler t store h)) entry)
                       else snd (wrappedActionHandler t store (hd entry))))"
    by (simp add: dispatch_normalized[OF n])
next
  fix s assume s: "getProp t ''type'' = JStr s"
  then have n: "unifyObjectStyle production t p opts = Inr (JStr s, t, p)" for opts
    by (simp add: unifyObjectStyle_object[OF obj ty])
  show "commit production t p opts store = commit production (JStr s) t p store"
    by (simp add: commit_def n unifyObjectStyle_string)
  show "dispatch production t p store = dispatch production (JStr s) t store"
    by (simp add: dispatch_def n unifyObjectStyle_string)
qed

theorem object_style_call_passes_whole_object_witness:
  "unifyObjectStyle False example_object (JObj [(''silent'', JBool True)]) JNull
     = Inr (JStr ''inc'', example_object, JObj [(''silent'', JBool True)])
   \<and> commit False example_object (JObj [(''silent'', JBool True)]) JNull example_store
     = Inr (example_store\<lparr>vm_state := JNum 10,
              trace := [MutationHandlerCalled 1 example_object True,
                        MutationHandlerCalled 2 example_object True,
                        SubscriberCalled 5
                          (JObj [(''type'', JStr ''inc''), (''payload'', example_object)]) (JNum 10),
                        SubscriberCalled 6
                          (JObj [(''type'', JStr ''inc''), (''payload'', example_object)]) (JNum 10),
                        ConsoleWarn (silentWarning (JStr ''inc''))]\<rparr>)
   \<and> commit False example_object (JObj [(''silent'', JBool True)]) JNull example_store
     = commit False (JStr ''inc'') example_object (JObj [(''silent'', JBool True)]) example_store
   \<and> dispatch False (JObj [(''type'', JStr ''load''), (''id'', JNum 4)]) JUndefined example_store
     = Inr (example_store\<lparr>trace :=
         [ActionSubscriberCalled 7
            (JObj [(''type'', JStr ''load''),
                   (''payload'', JObj [(''type'', JStr ''load''), (''id'', JNum 4)])]) (JNum 0),
          ActionSubscriberCalled 8
            (JObj [(''type'', JStr ''load''),
                   (''payload'', JObj [(''type'', JStr ''load''), (''id'', JNum 4)])]) (JNum 0),
          ActionHandlerCalled 11 (JObj [(''type'', JStr ''load''), (''id'', JNum 4)])]\<rparr>,
        ReturnedPromise (PromiseResolve (JStr ''done'')))"
proof -
  let ?req = "JObj [(''type'', JStr ''load''), (''id'', JNum 4)]"
  have ro: "isObject ?req" and rt: "truthy (getProp ?req ''type'')"
    and rty: "getProp ?req ''type'' = JStr ''load''"
    by simp_all
  have rreg: "map_of (actions example_store) (jsToString (getProp ?req ''type''))
                = Some [returning 11 (Returned (JStr ''done''))]
              \<and> [returning 11 (Returned (JStr ''done'')) :: nat actionHandler] \<noteq> []"
    by (simp add: example_store_def)
  from object_style_call_passes_whole_object[OF ro rt, of False JUndefined JUndefined example_store]
    rreg
  have "dispatch False ?req JUndefined example_store
     = Inr (example_store\<lparr>trace := trace example_store
              @ map (\<lambda>sub. ActionSubscriberCalled sub
                        (JObj [(''type'', getProp ?req ''type''), (''payload'', ?req)])
                        (vm_state example_store))
                  (actionSubscribers example_store)
              @ map (\<lambda>h. ActionHandlerCalled (action_ref h) ?req)
                  [returning 11 (Returned (JStr ''done''))]\<rparr>,
            ReturnedPromise
              (if length [returning 11 (Returned (JStr ''done'')) :: nat actionHandler] > 1
               then PromiseAll (map (\<lambda>h. snd (wrappedActionHandler ?req example_store h))
                      [returning 11 (Returned (JStr ''done''))])
               else snd (wrappedActionHandler ?req example_store
                      (hd [returning 11 (Returned (JStr ''done''))]))))"
    by (simp add: rty)
  then have disp: "dispatch False ?req JUndefined example_store
     = Inr (example_store\<lparr>trace :=
         [ActionSubscriberCalled 7
            (JObj [(''type'', JStr ''load''), (''payload'', ?req)]) (JNum 0),
          ActionSubscriberCalled 8
            (JObj [(''type'', JStr ''load''), (''payload'', ?req)]) (JNum 0),
          ActionHandlerCalled 11 ?req]\<rparr>,
        ReturnedPromise (PromiseResolve (JStr ''done'')))"
    by (simp add: example_store_def returning_def wrappedActionHandler_def)
  have o: "isObject example_object" and t: "truthy (getProp example_object ''type'')"
    and ty: "getProp example_object ''type'' = JStr ''inc''"
    by (simp_all add: example_object_def)
  have reg: "map_of (mutations example_store) (jsToString (getProp example_object ''type''))
               = Some [add_amount 1, add_amount 2]"
    by (simp add: ty example_store_def)
  let ?big = "example_store\<lparr>vm_state :=
                foldl (\<lambda>st h. mutation_run h example_object st) (vm_state example_store)
                  [add_amount 1, add_amount 2],
              trace := trace example_store
                @ map (\<lambda>h. MutationHandlerCalled (mutation_ref h) example_object True)
                    [add_amount 1, add_amount 2]
                @ map (\<lambda>sub. SubscriberCalled sub
                          (JObj [(''type'', getProp example_object ''type''),
                                 (''payload'', example_object)])
                          (foldl (\<lambda>st h. mutation_run h example_object st) (vm_state example_store)
                             [add_amount 1, add_amount 2]))
                    (subscribers example_store)
                @ (if \<not> False \<and> truthy (JObj [(''silent'', JBool True)])
                      \<and> truthy (getProp (JObj [(''silent'', JBool True)]) ''silent'')
                   then [ConsoleWarn (silentWarning (getProp example_object ''type''))] else [])\<rparr>"
  have big: "?big = example_store\<lparr>vm_state := JNum 10,
              trace := [MutationHandlerCalled 1 example_object True,
                        MutationHandlerCalled 2 example_object True,
                        SubscriberCalled 5
                          (JObj [(''type'', JStr ''inc''), (''payload'', example_object)]) (JNum 10),
                        SubscriberCalled 6
                          (JObj [(''type'', JStr ''inc''), (''payload'', example_object)]) (JNum 10),
                        ConsoleWarn (silentWarning (JStr ''inc''))]\<rparr>"
    by (simp add: ty) (simp add: example_store_def add_amount_def example_object_def)
  note inst = object_style_call_passes_whole_object[OF o t, of False "JObj [(''silent'', JBool True)]"
               JNull example_store]
  from inst have a: "unifyObjectStyle False example_object (JObj [(''silent'', JBool True)]) JNull
     = Inr (JStr ''inc'', example_object, JObj [(''silent'', JBool True)])"
    by (simp add: ty)
  from inst reg have "commit False example_object (JObj [(''silent'', JBool True)]) JNull example_store
     = Inr ?big"
    by (simp add: ty)
  then have b: "commit False example_object (JObj [(''silent'', JBool True)]) JNull example_store
     = Inr (example_store\<lparr>vm_state := JNum 10,
              trace := [MutationHandlerCalled 1 example_object True,
                        MutationHandlerCalled 2 example_object True,
                        SubscriberCalled 5
                          (JObj [(''type'', JStr ''inc''), (''payload'', example_object)]) (JNum 10),
                        SubscriberCalled 6
                          (JObj [(''type'', JStr ''inc''), (''payload'', example_object)]) (JNum 10),
                        ConsoleWarn (silentWarning (JStr ''inc''))]\<rparr>)"
    by (simp only: big)
  from inst ty have c: "commit False example_object (JObj [(''silent'', JBool True)]) JNull example_store
     = commit False (JStr ''inc'') example_object (JObj [(''silent'', JBool True)]) example_store"
    by blast
  from a b c disp show ?thesis by blast
qed

end
